theory Spec2Isabelle
  imports Complex_Main "HOL-Library.Word" "HOL-Library.Char_ord" "HOL-Library.List_Lexorder"
    "HOL-Library.Multiset"
begin

section \<open>collate\_project.py: strings, paths and the observed file system\<close>

text \<open>
  Python \<open>str\<close> values are modelled as \<open>string\<close> (lists of characters), compared
  lexicographically by character code as Python does. File names are taken to be ASCII, so
  that \<open>str.lower\<close> only moves \<open>A..Z\<close> to \<open>a..z\<close>. Paths are POSIX paths: a path below the
  project root is the list of its components, \<open>path_str\<close> is its \<open>str()\<close> form.
\<close>

type_synonym byte = "8 word"
type_synonym path = "string list"

definition lower_char :: "char \<Rightarrow> char" where
  "lower_char c =
     (let n = (of_char c :: nat) in if 65 \<le> n \<and> n \<le> 90 then char_of (n + 32) else c)"

definition lower :: "string \<Rightarrow> string" where
  "lower s = map lower_char s"

definition startswith_dot :: "string \<Rightarrow> bool" where
  "startswith_dot s = (case s of [] \<Rightarrow> False | c # _ \<Rightarrow> c = CHR ''.'')"

text \<open>\<open>str.rfind('.')\<close>: the index of the last dot, \<open>None\<close> for Python's \<open>-1\<close>.\<close>

fun rfind_dot :: "string \<Rightarrow> nat option" where
  "rfind_dot [] = None"
| "rfind_dot (c # cs) =
     (case rfind_dot cs of
        Some i \<Rightarrow> Some (Suc i)
      | None \<Rightarrow> if c = CHR ''.'' then Some 0 else None)"

text \<open>
  \<open>PurePath.suffix\<close> of a path whose final component is \<open>name\<close>:
  \<open>i = name.rfind('.'); name[i:] if 0 < i < len(name) - 1 else ''\<close>
  (pathlib of CPython 3.10 to 3.13; file names are single path components).
  A leading dot does not start a suffix, and neither does a trailing one.
\<close>

definition suffix :: "string \<Rightarrow> string" where
  "suffix name =
     (case rfind_dot name of
        None \<Rightarrow> []
      | Some i \<Rightarrow> if 0 < i \<and> Suc i < length name then drop i name else [])"

definition join_with :: "string \<Rightarrow> string list \<Rightarrow> string" where
  "join_with sep xs = (case xs of [] \<Rightarrow> [] | y # ys \<Rightarrow> y @ concat (map (\<lambda>z. sep @ z) ys))"

text \<open>\<open>str(root / a / b)\<close> for a resolved root; the file-system root is \<open>/\<close> itself.\<close>

definition path_str :: "string \<Rightarrow> path \<Rightarrow> string" where
  "path_str root_dir p =
     (if p = [] then root_dir
      else if root_dir = ''/'' then ''/'' @ join_with ''/'' p
      else root_dir @ ''/'' @ join_with ''/'' p)"

text \<open>\<open>PurePath.suffix\<close> of a path: the suffix of its final component.\<close>

definition path_suffix :: "path \<Rightarrow> string" where
  "path_suffix p = (case rev p of [] \<Rightarrow> [] | name # _ \<Rightarrow> suffix name)"

text \<open>
  The tree below the root as \<open>os.walk\<close> sees it: every directory lists its entries in the
  order \<open>os.scandir\<close> reports them. A directory that cannot be listed, or a symbolic link
  to a directory (not followed), is a \<open>Dir\<close> with no entries: \<open>os.walk\<close> yields nothing
  for it.
\<close>

datatype node = File string | Dir string "node list"

text \<open>
  What the file primitives answer for a path, \<open>None\<close> standing for a raised exception:
  \<open>Path.stat().st_size\<close>, the bytes \<open>open(p, "rb")\<close> can read, and
  \<open>Path.read_text(encoding="utf-8", errors="replace")\<close>. \<open>listing\<close> is \<open>None\<close> when the
  root does not exist. The tree does not change while the program runs: a primitive asked
  twice about a path answers the same.
\<close>

record filesystem =
  listing :: "node list option"
  st_size :: "path \<Rightarrow> nat option"
  read_bytes :: "path \<Rightarrow> byte list option"
  read_text :: "path \<Rightarrow> string option"

datatype io_op = Stat path | OpenBinary path | ReadText path

section \<open>Configuration tables\<close>

definition DEFAULT_EXCLUDED_DIRS :: "string set" where
  "DEFAULT_EXCLUDED_DIRS =
     {''.git'', ''.svn'', ''.hg'', ''.idea'', ''.vs'', ''.vscode'', ''.godot'', ''.import'',
      ''.cache'', ''target'', ''node_modules'', ''dist'', ''build'', ''out'', ''__pycache__''}"

definition DEFAULT_ALLOWED_EXTENSIONS :: "string set" where
  "DEFAULT_ALLOWED_EXTENSIONS =
     {''.gd'', ''.tres'', ''.cfg'', ''.ini'', ''.shader'', ''.gdshader'',
      ''.rs'', ''.toml'', ''.md'',
      ''.h'', ''.hpp'', ''.c'', ''.cpp'', ''.cc'', ''.cxx'',
      ''.json'', ''.yml'', ''.yaml'', ''.js'', ''.ts'', ''.html'', ''.css'',
      ''.py'', ''.ps1'', ''.bat'', ''.sh'', ''.zsh'',
      ''.txt'', ''.csv'', ''.gitattributes'', ''.gitignore'', ''.editorconfig''}"

definition LANG_FROM_EXTENSION :: "(string \<times> string) list" where
  "LANG_FROM_EXTENSION =
     [(''.gd'', ''gdscript''), (''.rs'', ''rust''), (''.toml'', ''toml''), (''.lock'', ''''),
      (''.md'', ''md''), (''.h'', ''cpp''), (''.hpp'', ''cpp''), (''.c'', ''c''),
      (''.cpp'', ''cpp''), (''.cc'', ''cpp''), (''.cxx'', ''cpp''), (''.json'', ''json''),
      (''.yml'', ''yaml''), (''.yaml'', ''yaml''), (''.js'', ''javascript''),
      (''.ts'', ''typescript''), (''.html'', ''html''), (''.css'', ''css''),
      (''.py'', ''python''), (''.ps1'', ''powershell''), (''.bat'', ''bat''),
      (''.sh'', ''bash''), (''.zsh'', ''bash''), (''.tscn'', ''''), (''.tres'', ''''),
      (''.cfg'', ''''), (''.ini'', ''''), (''.shader'', ''glsl''), (''.gdshader'', ''glsl''),
      (''.import'', ''''), (''.txt'', ''''), (''.csv'', ''''), (''.gitattributes'', ''''),
      (''.gitignore'', ''''), (''.editorconfig'', '''')]"

section \<open>Binary detector\<close>

definition is_control_byte :: "byte \<Rightarrow> bool" where
  "is_control_byte b = (b < 9 \<or> (13 < b \<and> b < 32))"

definition control_bytes :: "byte list \<Rightarrow> nat" where
  "control_bytes chunk = length (filter is_control_byte chunk)"

text \<open>
  \<open>(control_bytes / len(chunk)) > 0.30\<close> divides two integers of at most 8192 and compares
  the double with the double nearest to 0.3. Distinct fractions with such denominators
  differ from 3/10 by at least 1/81920, far more than the rounding of either side, so the
  test is the exact one on rationals, written here by cross-multiplication.
\<close>

definition density_exceeds :: "nat \<Rightarrow> nat \<Rightarrow> bool" where
  "density_exceeds c n = (3 * n < 10 * c)"

definition sample_verdict :: "byte list \<Rightarrow> bool" where
  "sample_verdict chunk =
     (if 0 \<in> set chunk then True
      else if chunk = [] then False
      else density_exceeds (control_bytes chunk) (length chunk))"

definition read_sample :: "filesystem \<Rightarrow> path \<Rightarrow> nat \<Rightarrow> byte list option" where
  "read_sample fs p sample_bytes = map_option (take sample_bytes) (read_bytes fs p)"

definition is_probably_binary :: "filesystem \<Rightarrow> path \<Rightarrow> bool \<times> io_op list" where
  "is_probably_binary fs file_path =
     (case read_sample fs file_path 8192 of
        None \<Rightarrow> (True, [OpenBinary file_path])
      | Some chunk \<Rightarrow> (sample_verdict chunk, [OpenBinary file_path]))"

definition infer_lang_from_extension :: "path \<Rightarrow> string" where
  "infer_lang_from_extension file_path =
     (case map_of LANG_FROM_EXTENSION (lower (path_suffix file_path)) of
        None \<Rightarrow> []
      | Some tag \<Rightarrow> tag)"

section \<open>Tree walker\<close>

definition should_include_file :: "path \<Rightarrow> string set \<Rightarrow> bool" where
  "should_include_file file_path allowed_extensions =
     (if lower (path_suffix file_path) \<in> allowed_extensions then True else False)"

fun dirnames_of :: "node list \<Rightarrow> string list" where
  "dirnames_of [] = []"
| "dirnames_of (File n # es) = dirnames_of es"
| "dirnames_of (Dir n sub # es) = n # dirnames_of es"

fun filenames_of :: "node list \<Rightarrow> string list" where
  "filenames_of [] = []"
| "filenames_of (File n # es) = n # filenames_of es"
| "filenames_of (Dir n sub # es) = filenames_of es"

text \<open>The loop that rebuilds \<open>dirnames\<close> in place: the names \<open>os.walk\<close> still descends into.\<close>

fun prune_dirnames :: "string set \<Rightarrow> bool \<Rightarrow> string list \<Rightarrow> string list" where
  "prune_dirnames excluded_directories include_hidden [] = []"
| "prune_dirnames excluded_directories include_hidden (directory_name # rest) =
     (if directory_name \<in> excluded_directories
      then prune_dirnames excluded_directories include_hidden rest
      else if \<not> include_hidden \<and> startswith_dot directory_name
      then prune_dirnames excluded_directories include_hidden rest
      else directory_name # prune_dirnames excluded_directories include_hidden rest)"

text \<open>
  \<open>os.walk\<close>, top-down, together with the caller's pruning: the directories visited, in
  order, each with its path below the root, the directory names kept and its file names.
  After a directory is yielded, the walk goes into those of its subdirectories whose names
  are still in \<open>dirnames\<close>.
\<close>

fun os_walk :: "string set \<Rightarrow> bool \<Rightarrow> path \<Rightarrow> node list
    \<Rightarrow> (path \<times> string list \<times> string list) list" where
  "os_walk excluded_directories include_hidden current_dir entries =
     (current_dir,
      prune_dirnames excluded_directories include_hidden (dirnames_of entries),
      filenames_of entries)
     # concat (map (\<lambda>e. case e of
           File n \<Rightarrow> []
         | Dir n sub \<Rightarrow>
             if n \<in> set (prune_dirnames excluded_directories include_hidden (dirnames_of entries))
             then os_walk excluded_directories include_hidden (current_dir @ [n]) sub
             else []) entries)"

fun collect_files :: "string set \<Rightarrow> bool \<Rightarrow> path \<Rightarrow> string list \<Rightarrow> path list" where
  "collect_files allowed_extensions include_hidden current_path [] = []"
| "collect_files allowed_extensions include_hidden current_path (filename # rest) =
     (let file_path = current_path @ [filename] in
      if \<not> include_hidden \<and> startswith_dot filename
         \<and> path_suffix file_path \<notin> {''.gitignore'', ''.gitattributes'', ''.editorconfig''}
      then collect_files allowed_extensions include_hidden current_path rest
      else if should_include_file file_path allowed_extensions
      then file_path # collect_files allowed_extensions include_hidden current_path rest
      else collect_files allowed_extensions include_hidden current_path rest)"

text \<open>\<open>collected_paths\<close> before the sort: the candidates in traversal order.\<close>

definition traversal :: "string set \<Rightarrow> string set \<Rightarrow> bool \<Rightarrow> node list \<Rightarrow> path list" where
  "traversal excluded_directories allowed_extensions include_hidden entries =
     concat (map (\<lambda>(current_path, dirnames, filenames).
                collect_files allowed_extensions include_hidden current_path filenames)
             (os_walk excluded_directories include_hidden [] entries))"

definition sort_key_of :: "string \<Rightarrow> path \<Rightarrow> string" where
  "sort_key_of root_dir p = lower (path_str root_dir p)"

text \<open>\<open>list.sort(key=...)\<close> is a stable sort, as \<open>sort_key\<close> is.\<close>

definition walk_project :: "string \<Rightarrow> node list \<Rightarrow> string set \<Rightarrow> string set \<Rightarrow> bool
    \<Rightarrow> path list" where
  "walk_project root_dir entries excluded_directories allowed_extensions include_hidden =
     sort_key (sort_key_of root_dir)
       (traversal excluded_directories allowed_extensions include_hidden entries)"

section \<open>Content loader\<close>

text \<open>
  The result of \<open>read_text_safely\<close> with the file operations it performed, in order.
  \<open>max_bytes\<close> is an \<open>int\<close>: \<open>--max-kb\<close> accepts a negative number.
\<close>

definition read_text_safely :: "filesystem \<Rightarrow> path \<Rightarrow> int \<Rightarrow> string option \<times> io_op list" where
  "read_text_safely fs file_path max_bytes =
     (case st_size fs file_path of
        None \<Rightarrow> (None, [Stat file_path])
      | Some sz \<Rightarrow>
          if int sz > max_bytes then (None, [Stat file_path])
          else (case is_probably_binary fs file_path of
                  (True, ops1) \<Rightarrow> (None, Stat file_path # ops1)
                | (False, ops1) \<Rightarrow>
                    (case read_text fs file_path of
                       None \<Rightarrow> (None, Stat file_path # ops1 @ [ReadText file_path])
                     | Some content \<Rightarrow>
                         (Some content, Stat file_path # ops1 @ [ReadText file_path]))))"

section \<open>Formatting\<close>

definition digit_char :: "nat \<Rightarrow> char" where
  "digit_char d = char_of (48 + d)"

fun str_nat :: "nat \<Rightarrow> string" where
  "str_nat n = (if n < 10 then [digit_char n] else str_nat (n div 10) @ [digit_char (n mod 10)])"

definition str_int :: "int \<Rightarrow> string" where
  "str_int i = (if i < 0 then ''-'' @ str_nat (nat (- i)) else str_nat (nat i))"

text \<open>
  \<open>f"{num_bytes/1024:.1f} KB"\<close>. For a size below \<open>2 ^ 53\<close> the quotient by 1024 is an
  exact double, and the format rounds it to one decimal, a tie going to the even digit:
  the number of tenths is \<open>10 * num_bytes / 1024\<close> rounded half to even.
\<close>

definition round_half_even :: "nat \<Rightarrow> nat \<Rightarrow> nat" where
  "round_half_even a b =
     (let q = a div b; r = a mod b in
      if 2 * r < b then q
      else if b < 2 * r then q + 1
      else if even q then q else q + 1)"

definition human_kilobytes :: "nat \<Rightarrow> string" where
  "human_kilobytes num_bytes =
     (let tenths = round_half_even (10 * num_bytes) 1024 in
      str_nat (tenths div 10) @ ''.'' @ str_nat (tenths mod 10) @ '' KB'')"

definition newline :: string where
  "newline = [CHR 0x0A]"

definition rstrip_newlines :: "string \<Rightarrow> string" where
  "rstrip_newlines s = rev (dropWhile (\<lambda>c. c = CHR 0x0A) (rev s))"

section \<open>The run\<close>

text \<open>The parsed command line, with \<open>root\<close> and \<open>output\<close> already resolved.\<close>

record args =
  arg_root :: string
  arg_output :: string
  arg_max_kb :: int
  arg_include_hidden :: bool
  arg_extra_dirs :: "string list"
  arg_only_exts :: "string list"

definition excluded_directories_of :: "args \<Rightarrow> string set" where
  "excluded_directories_of a = DEFAULT_EXCLUDED_DIRS \<union> set (arg_extra_dirs a)"

definition allowed_extensions_of :: "args \<Rightarrow> string set" where
  "allowed_extensions_of a =
     (if arg_only_exts a \<noteq> [] then set (map lower (arg_only_exts a))
      else DEFAULT_ALLOWED_EXTENSIONS)"

definition collected_paths_of :: "args \<Rightarrow> node list \<Rightarrow> path list" where
  "collected_paths_of a entries =
     walk_project (arg_root a) entries (excluded_directories_of a) (allowed_extensions_of a)
       (arg_include_hidden a)"

text \<open>The table of contents: an entry whose \<open>stat\<close> fails is left out.\<close>

fun toc_lines :: "filesystem \<Rightarrow> path list \<Rightarrow> string list" where
  "toc_lines fs [] = []"
| "toc_lines fs (p # ps) =
     (case st_size fs p of
        None \<Rightarrow> toc_lines fs ps
      | Some file_size \<Rightarrow>
          (''- `'' @ join_with ''/'' p @ ''` ('' @ human_kilobytes file_size @ '')'')
          # toc_lines fs ps)"

text \<open>The state of the second loop of \<open>main\<close>.\<close>

record collation =
  lines :: "string list"
  included_count :: nat
  skipped_for_size :: nat
  skipped_as_binary :: nat
  operations :: "io_op list"

definition process_file :: "filesystem \<Rightarrow> int \<Rightarrow> collation \<Rightarrow> path \<Rightarrow> collation" where
  "process_file fs maximum_bytes st file_path =
     (case read_text_safely fs file_path maximum_bytes of
        (None, ops1) \<Rightarrow>
          (case st_size fs file_path of
             Some sz \<Rightarrow>
               if int sz > maximum_bytes
               then st\<lparr>skipped_for_size := skipped_for_size st + 1,
                       operations := operations st @ ops1 @ [Stat file_path]\<rparr>
               else st\<lparr>skipped_as_binary := skipped_as_binary st + 1,
                       operations := operations st @ ops1 @ [Stat file_path]\<rparr>
           | None \<Rightarrow>
               st\<lparr>skipped_as_binary := skipped_as_binary st + 1,
                  operations := operations st @ ops1 @ [Stat file_path]\<rparr>)
      | (Some content, ops1) \<Rightarrow>
          (let language_tag = infer_lang_from_extension file_path in
           st\<lparr>lines := lines st
                  @ [''===== FILE: '' @ join_with ''/'' file_path @ '' ====='' @ newline,
                     (if language_tag \<noteq> [] then ''```'' @ language_tag else ''```''),
                     rstrip_newlines content,
                     ''```'' @ newline],
              included_count := included_count st + 1,
              operations := operations st @ ops1\<rparr>))"

fun process_files :: "filesystem \<Rightarrow> int \<Rightarrow> collation \<Rightarrow> path list \<Rightarrow> collation" where
  "process_files fs maximum_bytes st [] = st"
| "process_files fs maximum_bytes st (file_path # rest) =
     process_files fs maximum_bytes (process_file fs maximum_bytes st file_path) rest"

definition header_lines :: "args \<Rightarrow> path list \<Rightarrow> string list" where
  "header_lines a collected_paths =
     [''# Project Context Collation'' @ newline,
      ''- Root: `'' @ arg_root a @ ''`'',
      ''- File count scanned (pre-size/binary filter): '' @ str_nat (length collected_paths),
      ''- Max file size included: '' @ str_int (arg_max_kb a) @ '' KB'',
      [],
      ''## Table of Contents'',
      []]"

definition footer_lines :: "collation \<Rightarrow> string list" where
  "footer_lines st =
     [newline @ ''---'',
      ''Included files: '' @ str_nat (included_count st),
      ''Skipped (too large): '' @ str_nat (skipped_for_size st),
      ''Skipped (binary/non-text): '' @ str_nat (skipped_as_binary st),
      []]"

text \<open>
  The body of \<open>main\<close> after the walk: header, table of contents (one \<open>stat\<close> for each
  candidate), then the loop over the candidates.
\<close>

definition collate :: "filesystem \<Rightarrow> args \<Rightarrow> path list \<Rightarrow> collation" where
  "collate fs a collected_paths =
     process_files fs (arg_max_kb a * 1024)
       \<lparr>lines = header_lines a collected_paths @ toc_lines fs collected_paths
                 @ [newline @ ''---'' @ newline],
        included_count = 0, skipped_for_size = 0, skipped_as_binary = 0,
        operations = map Stat collected_paths\<rparr>
       collected_paths"

datatype error = RootNotFound

text \<open>
  A completed run: the output path and the text written to it, the final state of the loop
  and the candidate list. \<open>main\<close> returns 1 (here \<open>Inl RootNotFound\<close>) when the root is
  missing.
\<close>

record run =
  written_to :: string
  document :: string
  summary :: collation
  candidates :: "path list"

definition main :: "filesystem \<Rightarrow> args \<Rightarrow> error + run" where
  "main fs a =
     (case listing fs of
        None \<Rightarrow> Inl RootNotFound
      | Some entries \<Rightarrow>
          (let collected_paths = collected_paths_of a entries;
               st = collate fs a collected_paths in
           Inr \<lparr>written_to = arg_output a,
                document = join_with newline (lines st @ footer_lines st),
                summary = st,
                candidates = collected_paths\<rparr>))"

section \<open>Predicates on the tree, for stating the properties\<close>

text \<open>\<open>file_at entries p\<close>: the tree has a file at the path \<open>p\<close> below the root.\<close>

inductive file_at :: "node list \<Rightarrow> path \<Rightarrow> bool" where
  here: "File f \<in> set entries \<Longrightarrow> file_at entries [f]"
| below: "Dir d sub \<in> set entries \<Longrightarrow> file_at sub p \<Longrightarrow> file_at entries (d # p)"

text \<open>The two tests of the pruning loop, and the two tests of the file loop.\<close>

definition dir_kept :: "string set \<Rightarrow> bool \<Rightarrow> string \<Rightarrow> bool" where
  "dir_kept excluded_directories include_hidden d =
     (d \<notin> excluded_directories \<and> (include_hidden \<or> \<not> startswith_dot d))"

definition file_kept :: "string set \<Rightarrow> bool \<Rightarrow> string \<Rightarrow> bool" where
  "file_kept allowed_extensions include_hidden f =
     ((include_hidden \<or> \<not> startswith_dot f
        \<or> suffix f \<in> {''.gitignore'', ''.gitattributes'', ''.editorconfig''})
      \<and> lower (suffix f) \<in> allowed_extensions)"

text \<open>
  The three ways the loop of \<open>main\<close> counts a candidate, read off its branches: the
  content came back; it did not and a second \<open>stat\<close> reports a size above the limit; it
  did not and the second \<open>stat\<close> reports a size within the limit or fails.
\<close>

datatype outcome = Included | SkippedTooLarge | SkippedBinaryOrUnreadable

definition outcome_of :: "filesystem \<Rightarrow> int \<Rightarrow> path \<Rightarrow> outcome" where
  "outcome_of fs maximum_bytes file_path =
     (case fst (read_text_safely fs file_path maximum_bytes) of
        Some content \<Rightarrow> Included
      | None \<Rightarrow>
          (case st_size fs file_path of
             Some sz \<Rightarrow>
               if int sz > maximum_bytes then SkippedTooLarge else SkippedBinaryOrUnreadable
           | None \<Rightarrow> SkippedBinaryOrUnreadable))"

text \<open>A file operation raises when the file system has no answer for it.\<close>

fun raises :: "filesystem \<Rightarrow> io_op \<Rightarrow> bool" where
  "raises fs (Stat p) = (st_size fs p = None)"
| "raises fs (OpenBinary p) = (read_bytes fs p = None)"
| "raises fs (ReadText p) = (read_text fs p = None)"

section \<open>A sample project\<close>

text \<open>
  A small tree on which the properties below are run: three text files whose names tie or
  differ in case, a file above the size limit, a file with a NUL byte, a file whose
  \<open>stat\<close> raises, one that cannot be opened, one whose full read raises, and an excluded
  directory. \<open>sample_fs_reordered\<close> is the same project with every directory listed in
  another order.
\<close>

definition sample_entries :: "node list" where
  "sample_entries =
     [File ''b.txt'', File ''A.txt'', File ''a.TXT'', File ''big.json'', File ''blob.py'',
      File ''gone.md'', File ''locked.rs'', File ''flaky.c'',
      Dir ''node_modules'' [File ''x.js'']]"

definition sample_fs :: filesystem where
  "sample_fs =
     \<lparr>listing = Some sample_entries,
      st_size = (\<lambda>p. if p = [''gone.md''] then None
                     else if p = [''big.json''] then Some 614400 else Some 3),
      read_bytes = (\<lambda>p. if p = [''gone.md''] \<or> p = [''locked.rs''] then None
                        else if p = [''blob.py''] then Some [0x7F, 0x45, 0x00]
                        else Some [0x68, 0x69, 0x0A]),
      read_text = (\<lambda>p. if p = [''gone.md''] \<or> p = [''locked.rs''] \<or> p = [''flaky.c'']
                       then None else Some (''hi'' @ newline))\<rparr>"


definition sample_args :: args where
  "sample_args =
     \<lparr>arg_root = ''/srv/app'', arg_output = ''/tmp/project_context.md'', arg_max_kb = 512,
      arg_include_hidden = False, arg_extra_dirs = [], arg_only_exts = []\<rparr>"

section \<open>Binary detector: the verdict\<close>

lemma density_exceeds_real:
  "0 < n \<Longrightarrow> density_exceeds c n = (3 / 10 < real c / real n)"
proof -
  assume n: "0 < n"
  have "(3 * n < 10 * c) = (real (3 * n) < real (10 * c))"
    by (simp only: of_nat_less_iff)
  also have "\<dots> = (3 / 10 < real c / real n)"
    using n by (simp add: field_simps)
  finally show ?thesis by (simp add: density_exceeds_def)
qed

text \<open>
  C3. The detector samples the first 8192 bytes of the file. A failure to open or read
  gives \<open>True\<close>. Otherwise the verdict is \<open>True\<close> when the sample holds a NUL byte, else
  \<open>False\<close> when the sample is empty, else \<open>True\<close> exactly when the fraction of the bytes
  that are below 9 or strictly between 13 and 32 exceeds 0.30.
\<close>

theorem is_probably_binary_verdict:
  "fst (is_probably_binary fs p) =
     (case read_bytes fs p of
        None \<Rightarrow> True
      | Some bytes \<Rightarrow>
          (let chunk = take 8192 bytes in
           if 0 \<in> set chunk then True
           else if chunk = [] then False
           else 3 / 10 < real (length (filter (\<lambda>b. b < 9 \<or> (13 < b \<and> b < 32)) chunk))
                           / real (length chunk)))"
proof (cases "read_bytes fs p")
  case None
  then show ?thesis by (simp add: is_probably_binary_def read_sample_def)
next
  case (Some bytes)
  have "sample_verdict c =
          (if 0 \<in> set c then True else if c = [] then False
           else 3 / 10 < real (length (filter (\<lambda>b. b < 9 \<or> (13 < b \<and> b < 32)) c))
                           / real (length c))" for c
    by (simp add: sample_verdict_def control_bytes_def is_control_byte_def [abs_def]
        density_exceeds_real)
  with Some show ?thesis
    by (simp add: is_probably_binary_def read_sample_def Let_def)
qed

theorem is_probably_binary_verdict_witness:
  "\<not> fst (is_probably_binary
       \<lparr>listing = None, st_size = (\<lambda>p. None),
        read_bytes = (\<lambda>p. Some [1, 2, 3, 65, 66, 67, 68, 69, 70, 71]),
        read_text = (\<lambda>p. None)\<rparr> [''a.txt''])
   \<and> fst (is_probably_binary
       \<lparr>listing = None, st_size = (\<lambda>p. None),
        read_bytes = (\<lambda>p. Some [1, 2, 3, 4, 66, 67, 68, 69, 70, 71]),
        read_text = (\<lambda>p. None)\<rparr> [''a.txt''])
   \<and> fst (is_probably_binary
       \<lparr>listing = None, st_size = (\<lambda>p. None),
        read_bytes = (\<lambda>p. Some [65, 0, 66]), read_text = (\<lambda>p. None)\<rparr> [''a.txt''])
   \<and> \<not> fst (is_probably_binary
       \<lparr>listing = None, st_size = (\<lambda>p. None),
        read_bytes = (\<lambda>p. Some []), read_text = (\<lambda>p. None)\<rparr> [''a.txt''])
   \<and> fst (is_probably_binary
       \<lparr>listing = None, st_size = (\<lambda>p. None),
        read_bytes = (\<lambda>p. None), read_text = (\<lambda>p. None)\<rparr> [''a.txt''])"
  by (simp add: is_probably_binary_verdict)

section \<open>What the walker collects\<close>

declare os_walk.simps [simp del]

lemma prune_dirnames_filter:
  "prune_dirnames ex ih ds = filter (dir_kept ex ih) ds"
  by (induction ds) (auto simp: dir_kept_def)

lemma dirnames_of_iff: "n \<in> set (dirnames_of es) \<longleftrightarrow> (\<exists>sub. Dir n sub \<in> set es)"
  by (induction es rule: dirnames_of.induct) auto

lemma filenames_of_iff: "f \<in> set (filenames_of es) \<longleftrightarrow> File f \<in> set es"
  by (induction es rule: filenames_of.induct) auto

lemma path_suffix_snoc: "path_suffix (cur @ [f]) = suffix f"
  by (simp add: path_suffix_def)

lemma collect_files_iff:
  "p \<in> set (collect_files al ih cur fns) \<longleftrightarrow> (\<exists>f \<in> set fns. p = cur @ [f] \<and> file_kept al ih f)"
  by (induction fns)
     (auto simp: Let_def path_suffix_snoc should_include_file_def file_kept_def)

lemma file_at_nonempty: "file_at es p \<Longrightarrow> p \<noteq> []"
  by (erule file_at.cases) auto

lemma os_walk_visits:
  "v \<in> set (os_walk ex ih cur es) \<Longrightarrow>
     \<exists>rel. fst v = cur @ rel \<and> (\<forall>d \<in> set rel. dir_kept ex ih d)
        \<and> (\<forall>d \<in> set (fst (snd v)). dir_kept ex ih d)"
proof (induction ex ih cur es arbitrary: v rule: os_walk.induct)
  case (1 ex ih cur es)
  from "1.prems" consider
      (top) "v = (cur, prune_dirnames ex ih (dirnames_of es), filenames_of es)"
    | (sub) n sub where "Dir n sub \<in> set es"
        "n \<in> set (prune_dirnames ex ih (dirnames_of es))"
        "v \<in> set (os_walk ex ih (cur @ [n]) sub)"
    by (subst (asm) os_walk.simps) (auto split: node.splits if_splits)
  then show ?case
  proof cases
    case top
    then show ?thesis by (auto simp: prune_dirnames_filter intro: exI [of _ "[]"])
  next
    case sub
    from "1.IH" [OF sub(1) refl sub(2) sub(3)]
    obtain rel where rel: "fst v = (cur @ [n]) @ rel" "\<forall>d \<in> set rel. dir_kept ex ih d"
      "\<forall>d \<in> set (fst (snd v)). dir_kept ex ih d" by blast
    from sub(2) have "dir_kept ex ih n" by (simp add: prune_dirnames_filter)
    with rel show ?thesis by (intro exI [of _ "n # rel"]) simp
  qed
qed

lemma traversal_iff_aux:
  "p \<in> set (concat (map (\<lambda>(current_path, dirnames, filenames).
                collect_files al ih current_path filenames) (os_walk ex ih cur es)))
   \<longleftrightarrow> (\<exists>q. p = cur @ q \<and> file_at es q \<and> (\<forall>d \<in> set (butlast q). dir_kept ex ih d)
            \<and> file_kept al ih (last q))"
proof (induction ex ih cur es arbitrary: p rule: os_walk.induct)
  case (1 ex ih cur es)
  let ?pr = "prune_dirnames ex ih (dirnames_of es)"
  let ?T = "\<lambda>cur es. concat (map (\<lambda>(current_path, dirnames, filenames).
                collect_files al ih current_path filenames) (os_walk ex ih cur es))"
  let ?R = "\<lambda>cur es. \<exists>q. p = cur @ q \<and> file_at es q
              \<and> (\<forall>d \<in> set (butlast q). dir_kept ex ih d) \<and> file_kept al ih (last q)"
  have unfold: "p \<in> set (?T cur es) \<longleftrightarrow>
      p \<in> set (collect_files al ih cur (filenames_of es))
      \<or> (\<exists>n sub. Dir n sub \<in> set es \<and> n \<in> set ?pr \<and> p \<in> set (?T (cur @ [n]) sub))"
    (is "?lhs \<longleftrightarrow> ?rhs")
  proof
    assume ?lhs
    then show ?rhs
      by (subst (asm) os_walk.simps) (auto split: node.splits if_splits)
  next
    assume ?rhs
    then show ?lhs
      by (subst os_walk.simps) (force split: node.splits if_splits)
  qed
  have IH: "p \<in> set (?T (cur @ [n]) sub) \<longleftrightarrow> ?R (cur @ [n]) sub"
    if "Dir n sub \<in> set es" "n \<in> set ?pr" for n sub
    using "1.IH" [OF that(1) refl that(2)] .
  show ?case
  proof
    assume "p \<in> set (?T cur es)"
    with unfold consider
        (files) "p \<in> set (collect_files al ih cur (filenames_of es))"
      | (dirs) n sub where "Dir n sub \<in> set es" "n \<in> set ?pr" "p \<in> set (?T (cur @ [n]) sub)"
      by blast
    then show "?R cur es"
    proof cases
      case files
      then obtain f where "File f \<in> set es" "p = cur @ [f]" "file_kept al ih f"
        by (auto simp: collect_files_iff filenames_of_iff)
      then show ?thesis by (intro exI [of _ "[f]"]) (simp add: file_at.here)
    next
      case dirs
      from IH [OF dirs(1,2)] dirs(3)
      obtain q where q: "p = (cur @ [n]) @ q" "file_at sub q"
        "\<forall>d \<in> set (butlast q). dir_kept ex ih d" "file_kept al ih (last q)" by blast
      from q(2) have ne: "q \<noteq> []" by (rule file_at_nonempty)
      from dirs(2) have "dir_kept ex ih n" by (simp add: prune_dirnames_filter)
      with q ne dirs(1) show ?thesis
        by (intro exI [of _ "n # q"]) (simp add: file_at.below)
    qed
  next
    assume "?R cur es"
    then obtain q where q: "p = cur @ q" "file_at es q"
      "\<forall>d \<in> set (butlast q). dir_kept ex ih d" "file_kept al ih (last q)" by blast
    from q(2) show "p \<in> set (?T cur es)"
    proof cases
      case (here f)
      with q show ?thesis
        by (subst unfold) (auto simp: collect_files_iff filenames_of_iff)
    next
      case (below d sub q')
      from below(3) have ne: "q' \<noteq> []" by (rule file_at_nonempty)
      with q(3) below(1) have kept: "dir_kept ex ih d" by simp
      with below(2) have pr: "d \<in> set ?pr"
        by (auto simp: prune_dirnames_filter dirnames_of_iff)
      have "?R (cur @ [d]) sub"
        using q below ne by (intro exI [of _ q']) simp
      with IH [OF below(2) pr] have "p \<in> set (?T (cur @ [d]) sub)" by blast
      with below(2) pr show ?thesis by (subst unfold) blast
    qed
  qed
qed

lemma traversal_iff:
  "p \<in> set (traversal ex al ih es) \<longleftrightarrow>
     file_at es p \<and> (\<forall>d \<in> set (butlast p). dir_kept ex ih d) \<and> file_kept al ih (last p)"
  unfolding traversal_def by (subst traversal_iff_aux) simp

lemma walk_project_iff:
  "p \<in> set (walk_project r es ex al ih) \<longleftrightarrow>
     file_at es p \<and> (\<forall>d \<in> set (butlast p). dir_kept ex ih d) \<and> file_kept al ih (last p)"
  by (simp add: walk_project_def traversal_iff)


text \<open>
  C5. A directory whose name is in \<open>excluded_directories\<close> is never entered, at any
  depth and whatever \<open>include_hidden\<close> is: no directory the walk visits has such a name on
  its path below the root, no such name stays in a pruned \<open>dirnames\<close>, and no candidate
  lies below such a directory.
\<close>

theorem excluded_directories_never_entered:
  "(\<forall>v \<in> set (os_walk ex ih [] es). set (fst v) \<inter> ex = {} \<and> set (fst (snd v)) \<inter> ex = {})
   \<and> (\<forall>p \<in> set (walk_project r es ex al ih). set (butlast p) \<inter> ex = {})"
proof (intro conjI ballI)
  fix v assume "v \<in> set (os_walk ex ih [] es)"
  from os_walk_visits [OF this]
  show "set (fst v) \<inter> ex = {}" and "set (fst (snd v)) \<inter> ex = {}"
    by (auto simp: dir_kept_def)
next
  fix p assume "p \<in> set (walk_project r es ex al ih)"
  then show "set (butlast p) \<inter> ex = {}"
    by (auto simp: walk_project_iff dir_kept_def)
qed

theorem excluded_directories_never_entered_witness:
  "walk_project ''/srv/app''
     [Dir ''src'' [File ''main.rs'', Dir ''node_modules'' [File ''x.js'', Dir ''lib'' [File ''y.js'']]],
      Dir ''node_modules'' [File ''index.js''], Dir ''.git'' [File ''notes.txt'']]
     DEFAULT_EXCLUDED_DIRS DEFAULT_ALLOWED_EXTENSIONS True = [[''src'', ''main.rs'']]
   \<and> set (butlast [''src'', ''main.rs'']) \<inter> DEFAULT_EXCLUDED_DIRS = {}
   \<and> map fst (os_walk DEFAULT_EXCLUDED_DIRS True []
     [Dir ''src'' [File ''main.rs'', Dir ''node_modules'' [File ''x.js'', Dir ''lib'' [File ''y.js'']]],
      Dir ''node_modules'' [File ''index.js''], Dir ''.git'' [File ''notes.txt'']]) = [[], [''src'']]"
proof -
  let ?es = "[Dir ''src'' [File ''main.rs'', Dir ''node_modules'' [File ''x.js'', Dir ''lib'' [File ''y.js'']]],
      Dir ''node_modules'' [File ''index.js''], Dir ''.git'' [File ''notes.txt'']]"
  have w: "walk_project ''/srv/app'' ?es DEFAULT_EXCLUDED_DIRS DEFAULT_ALLOWED_EXTENSIONS True
             = [[''src'', ''main.rs'']]"
    by code_simp
  have v: "map fst (os_walk DEFAULT_EXCLUDED_DIRS True [] ?es) = [[], [''src'']]"
    by code_simp
  from excluded_directories_never_entered
    [of DEFAULT_EXCLUDED_DIRS True ?es "''/srv/app''" DEFAULT_ALLOWED_EXTENSIONS]
  have "\<forall>p \<in> set (walk_project ''/srv/app'' ?es DEFAULT_EXCLUDED_DIRS
                      DEFAULT_ALLOWED_EXTENSIONS True).
          set (butlast p) \<inter> DEFAULT_EXCLUDED_DIRS = {}"
    by (rule conjunct2)
  with w have "set (butlast [''src'', ''main.rs'']) \<inter> DEFAULT_EXCLUDED_DIRS = {}"
    by simp
  with w v show ?thesis by (intro conjI)
qed



section \<open>Suffixes and the extension allow-list\<close>

lemma rfind_dot_Some: "rfind_dot name = Some i \<Longrightarrow> i < length name \<and> name ! i = CHR ''.''"
  by (induction name arbitrary: i) (auto split: option.splits if_splits)

lemma suffix_shape: "suffix name = [] \<or> startswith_dot (suffix name)"
proof (cases "rfind_dot name")
  case None
  then show ?thesis by (simp add: suffix_def)
next
  case (Some i)
  from rfind_dot_Some [OF this] have "i < length name" "name ! i = CHR ''.''" by simp_all
  then have "drop i name = CHR ''.'' # drop (Suc i) name"
    by (simp add: Cons_nth_drop_Suc [symmetric])
  with Some show ?thesis by (simp add: suffix_def startswith_dot_def)
qed

lemma lower_char_dot: "lower_char c = CHR ''.'' \<longleftrightarrow> c = CHR ''.''"
proof -
  have "char_of (of_char c + 32 :: nat) \<noteq> CHR ''.''" if "65 \<le> (of_char c :: nat)" "(of_char c :: nat) \<le> 90"
  proof
    assume "char_of (of_char c + 32 :: nat) = CHR ''.''"
    then have "(of_char (char_of (of_char c + 32 :: nat)) :: nat) = of_char CHR ''.''" by simp
    with that show False by simp
  qed
  moreover have "\<not> (65 \<le> (of_char CHR ''.'' :: nat))" by simp
  ultimately show ?thesis by (auto simp: lower_char_def Let_def)
qed

lemma startswith_dot_lower: "startswith_dot (lower s) = startswith_dot s"
  by (cases s) (simp_all add: startswith_dot_def lower_def lower_char_dot)

lemma lower_Nil_iff: "lower s = [] \<longleftrightarrow> s = []"
  by (simp add: lower_def)

lemma path_suffix_last: "p \<noteq> [] \<Longrightarrow> path_suffix p = suffix (last p)"
  by (cases p rule: rev_cases) (simp_all add: path_suffix_def)

lemma collected_paths_of_iff:
  "p \<in> set (collected_paths_of a es) \<longleftrightarrow>
     file_at es p
     \<and> (\<forall>d \<in> set (butlast p). dir_kept (excluded_directories_of a) (arg_include_hidden a) d)
     \<and> file_kept (allowed_extensions_of a) (arg_include_hidden a) (last p)"
  by (simp add: collected_paths_of_def walk_project_iff)

text \<open>
  C7. A non-empty \<open>--only-exts\<close> list replaces the default extensions: the allow-list is
  exactly the lower-cased entries, and every candidate of the run has one of them as its
  lower-cased suffix. \<open>--extra-dirs\<close> is added to the default exclusions: the exclusion
  set is the union, and no candidate lies below a directory named in either part.
\<close>

theorem only_exts_replaces_extra_dirs_adds:
  assumes "arg_only_exts a \<noteq> []"
  shows "allowed_extensions_of a = set (map lower (arg_only_exts a))
         \<and> (\<forall>p \<in> set (collected_paths_of a es).
               lower (path_suffix p) \<in> set (map lower (arg_only_exts a)))
         \<and> excluded_directories_of a = DEFAULT_EXCLUDED_DIRS \<union> set (arg_extra_dirs a)
         \<and> (\<forall>p \<in> set (collected_paths_of a es).
               set (butlast p) \<inter> (DEFAULT_EXCLUDED_DIRS \<union> set (arg_extra_dirs a)) = {})"
proof (intro conjI ballI)
  from assms show al: "allowed_extensions_of a = set (map lower (arg_only_exts a))"
    by (simp add: allowed_extensions_of_def)
  show "excluded_directories_of a = DEFAULT_EXCLUDED_DIRS \<union> set (arg_extra_dirs a)"
    by (simp add: excluded_directories_of_def)
  fix p assume p: "p \<in> set (collected_paths_of a es)"
  then have "file_at es p" by (simp add: collected_paths_of_iff)
  then have "p \<noteq> []" by (rule file_at_nonempty)
  with p al show "lower (path_suffix p) \<in> set (map lower (arg_only_exts a))"
    by (simp add: collected_paths_of_iff file_kept_def path_suffix_last)
  from p show "set (butlast p) \<inter> (DEFAULT_EXCLUDED_DIRS \<union> set (arg_extra_dirs a)) = {}"
    by (auto simp: collected_paths_of_iff dir_kept_def excluded_directories_of_def)
qed

theorem only_exts_replaces_extra_dirs_adds_witness:
  "''.toml'' \<in> DEFAULT_ALLOWED_EXTENSIONS
   \<and> collected_paths_of
        \<lparr>arg_root = ''/srv/app'', arg_output = ''/tmp/out.md'', arg_max_kb = 512,
         arg_include_hidden = False, arg_extra_dirs = [''vendor''], arg_only_exts = [''.rs'']\<rparr>
        [File ''Cargo.toml'', File ''main.rs'', Dir ''vendor'' [File ''v.rs''],
         Dir ''target'' [File ''t.rs'']]
      = [[''main.rs'']]
   \<and> allowed_extensions_of
        \<lparr>arg_root = ''/srv/app'', arg_output = ''/tmp/out.md'', arg_max_kb = 512,
         arg_include_hidden = False, arg_extra_dirs = [''vendor''], arg_only_exts = [''.rs'']\<rparr>
      = {''.rs''}"
proof -
  let ?a = "\<lparr>arg_root = ''/srv/app'', arg_output = ''/tmp/out.md'', arg_max_kb = 512,
         arg_include_hidden = False, arg_extra_dirs = [''vendor''], arg_only_exts = [''.rs'']\<rparr>"
  have ne: "arg_only_exts ?a \<noteq> []" by simp
  have 1: "''.toml'' \<in> DEFAULT_ALLOWED_EXTENSIONS" by code_simp
  have 2: "collected_paths_of ?a [File ''Cargo.toml'', File ''main.rs'',
         Dir ''vendor'' [File ''v.rs''], Dir ''target'' [File ''t.rs'']] = [[''main.rs'']]"
    by code_simp
  have l: "lower ''.rs'' = ''.rs''" by code_simp
  from only_exts_replaces_extra_dirs_adds [OF ne]
  have "allowed_extensions_of ?a = set (map lower (arg_only_exts ?a))" by (rule conjunct1)
  then have 3: "allowed_extensions_of ?a = {''.rs''}" by (simp add: l)
  from 1 2 3 show ?thesis by (intro conjI)
qed

text \<open>
  C9 as stated fails for the empty entry: \<open>--only-exts ""\<close> gives the allow-list
  \<open>{""}\<close>, the entry does not start with a dot, and every file without a suffix matches it.
\<close>

theorem dotless_entry_counterexample:
  "\<not> startswith_dot ''''
   \<and> arg_only_exts \<lparr>arg_root = ''/srv/app'', arg_output = ''/tmp/out.md'', arg_max_kb = 512,
         arg_include_hidden = False, arg_extra_dirs = [], arg_only_exts = ['''']\<rparr> \<noteq> []
   \<and> should_include_file [''Makefile'']
        (allowed_extensions_of \<lparr>arg_root = ''/srv/app'', arg_output = ''/tmp/out.md'',
           arg_max_kb = 512, arg_include_hidden = False, arg_extra_dirs = [],
           arg_only_exts = ['''']\<rparr>)
   \<and> collected_paths_of
        \<lparr>arg_root = ''/srv/app'', arg_output = ''/tmp/out.md'', arg_max_kb = 512,
         arg_include_hidden = False, arg_extra_dirs = [], arg_only_exts = ['''']\<rparr>
        [File ''Makefile'', File ''main.rs''] = [[''Makefile'']]"
  by code_simp

text \<open>
  C9, amended. An entry of \<open>--only-exts\<close> that is not empty and does not start with a dot
  matches no file: the suffix of a file name is empty or starts with a dot, and
  lower-casing changes neither. A run whose allow-list has only such entries has no
  candidates.
\<close>

theorem dotless_entries_select_nothing:
  assumes "arg_only_exts a \<noteq> []"
    and "\<forall>e \<in> set (arg_only_exts a). e \<noteq> [] \<and> \<not> startswith_dot e"
  shows "(\<forall>p. \<not> should_include_file p (allowed_extensions_of a))
         \<and> collected_paths_of a es = []"
proof -
  have no: "lower s \<notin> allowed_extensions_of a" if "s = [] \<or> startswith_dot s" for s
  proof
    assume "lower s \<in> allowed_extensions_of a"
    with assms(1) obtain e where e: "e \<in> set (arg_only_exts a)" "lower s = lower e"
      by (auto simp: allowed_extensions_of_def)
    from assms(2) e(1) have "e \<noteq> []" "\<not> startswith_dot e" by auto
    with that e(2) show False
      by (metis lower_Nil_iff startswith_dot_lower)
  qed
  have ps: "path_suffix p = [] \<or> startswith_dot (path_suffix p)" for p
    by (cases p rule: rev_cases) (simp_all add: path_suffix_def suffix_shape)
  have 1: "\<not> should_include_file p (allowed_extensions_of a)" for p
    using no [OF ps [of p]] by (simp add: should_include_file_def)
  have "p \<notin> set (collected_paths_of a es)" for p
    using no [OF suffix_shape [of "last p"]]
    by (simp add: collected_paths_of_iff file_kept_def)
  then have "collected_paths_of a es = []"
    by (cases "collected_paths_of a es") (simp, metis list.set_intros(1))
  with 1 show ?thesis by simp
qed

theorem dotless_entries_select_nothing_witness:
  "collected_paths_of
     \<lparr>arg_root = ''/srv/app'', arg_output = ''/tmp/out.md'', arg_max_kb = 512,
      arg_include_hidden = False, arg_extra_dirs = [], arg_only_exts = [''rs'', ''PY'']\<rparr>
     [File ''main.rs'', File ''tool.py'', File ''rs'', Dir ''src'' [File ''lib.RS'']] = []"
proof -
  let ?a = "\<lparr>arg_root = ''/srv/app'', arg_output = ''/tmp/out.md'', arg_max_kb = 512,
      arg_include_hidden = False, arg_extra_dirs = [], arg_only_exts = [''rs'', ''PY'']\<rparr>"
  have 1: "arg_only_exts ?a \<noteq> []" by simp
  have 2: "\<forall>e \<in> set (arg_only_exts ?a). e \<noteq> [] \<and> \<not> startswith_dot e"
    by (simp add: startswith_dot_def)
  from dotless_entries_select_nothing [OF 1 2] show ?thesis by (rule conjunct2)
qed

text \<open>
  C2 at the failing input. The suffix of the name \<open>.gitignore\<close> is empty (a leading dot
  starts no suffix), so with \<open>include_hidden\<close> off the file is skipped as hidden like
  \<open>.env\<close>; only a name such as \<open>.repo.gitignore\<close>, whose suffix is \<open>.gitignore\<close>, passes.
\<close>

theorem hidden_gitignore_is_skipped:
  "suffix ''.gitignore'' = []
   \<and> collected_paths_of
        \<lparr>arg_root = ''/srv/app'', arg_output = ''/tmp/out.md'', arg_max_kb = 512,
         arg_include_hidden = False, arg_extra_dirs = [], arg_only_exts = []\<rparr>
        [File ''.gitignore'', File ''.env'', File ''.repo.gitignore'', File ''a.py'']
      = [[''.repo.gitignore''], [''a.py'']]"
  by code_simp

section \<open>The loader and the counters\<close>

lemma read_text_safely_too_large:
  "st_size fs p = Some sz \<Longrightarrow> int sz > m \<Longrightarrow> read_text_safely fs p m = (None, [Stat p])"
  by (simp add: read_text_safely_def)

lemma read_text_safely_ops:
  "op \<in> set (snd (read_text_safely fs p m)) \<Longrightarrow> op \<in> {Stat p, OpenBinary p, ReadText p}"
  by (auto simp: read_text_safely_def is_probably_binary_def
      split: option.splits if_splits bool.splits prod.splits)

lemma read_text_safely_raises:
  "\<exists>op \<in> set (snd (read_text_safely fs p m)). raises fs op \<Longrightarrow>
     fst (read_text_safely fs p m) = None"
  by (auto simp: read_text_safely_def is_probably_binary_def read_sample_def
      split: option.splits if_splits bool.splits prod.splits)

lemma outcome_of_raises:
  assumes "\<exists>op \<in> set (snd (read_text_safely fs p m)). raises fs op"
  shows "outcome_of fs m p = SkippedBinaryOrUnreadable"
proof (cases "st_size fs p")
  case None
  with read_text_safely_raises [OF assms] show ?thesis by (simp add: outcome_of_def)
next
  case (Some sz)
  show ?thesis
  proof (cases "int sz > m")
    case True
    with Some assms show ?thesis by (simp add: read_text_safely_too_large)
  next
    case False
    with Some read_text_safely_raises [OF assms] show ?thesis by (simp add: outcome_of_def)
  qed
qed

lemma process_file_counts:
  "included_count (process_file fs m st p)
     = included_count st + (if outcome_of fs m p = Included then 1 else 0)
   \<and> skipped_for_size (process_file fs m st p)
     = skipped_for_size st + (if outcome_of fs m p = SkippedTooLarge then 1 else 0)
   \<and> skipped_as_binary (process_file fs m st p)
     = skipped_as_binary st + (if outcome_of fs m p = SkippedBinaryOrUnreadable then 1 else 0)"
  by (cases "read_text_safely fs p m")
     (auto simp: process_file_def outcome_of_def Let_def split: option.splits)

lemma process_files_counts:
  "included_count (process_files fs m st ps)
     = included_count st + length (filter (\<lambda>p. outcome_of fs m p = Included) ps)
   \<and> skipped_for_size (process_files fs m st ps)
     = skipped_for_size st + length (filter (\<lambda>p. outcome_of fs m p = SkippedTooLarge) ps)
   \<and> skipped_as_binary (process_files fs m st ps)
     = skipped_as_binary st
       + length (filter (\<lambda>p. outcome_of fs m p = SkippedBinaryOrUnreadable) ps)"
proof (induction ps arbitrary: st)
  case Nil
  show ?case by simp
next
  case (Cons p ps)
  show ?case
    unfolding process_files.simps
    by (simp only: Cons.IH process_file_counts) simp
qed

lemma outcome_partition:
  "length (filter (\<lambda>p. outcome_of fs m p = Included) ps)
   + length (filter (\<lambda>p. outcome_of fs m p = SkippedTooLarge) ps)
   + length (filter (\<lambda>p. outcome_of fs m p = SkippedBinaryOrUnreadable) ps) = length ps"
proof (induction ps)
  case Nil
  show ?case by simp
next
  case (Cons p ps)
  then show ?case by (cases "outcome_of fs m p") simp_all
qed

lemma process_file_ops:
  "set (operations (process_file fs m st p))
     \<subseteq> set (operations st) \<union> set (snd (read_text_safely fs p m)) \<union> {Stat p}"
  by (cases "read_text_safely fs p m")
     (auto simp: process_file_def Let_def split: option.splits if_splits)

lemma process_files_ops:
  "op \<in> set (operations (process_files fs m st ps)) \<Longrightarrow>
     op \<in> set (operations st)
     \<or> (\<exists>q \<in> set ps. op \<in> set (snd (read_text_safely fs q m)) \<or> op = Stat q)"
proof (induction ps arbitrary: st)
  case Nil
  then show ?case by simp
next
  case (Cons p ps)
  from Cons.prems have "op \<in> set (operations (process_files fs m (process_file fs m st p) ps))"
    by simp
  from Cons.IH [OF this] process_file_ops [of fs m st p] show ?case by auto
qed

lemma main_Inr:
  assumes "main fs a = Inr r"
  obtains es where "listing fs = Some es" "candidates r = collected_paths_of a es"
    "summary r = collate fs a (collected_paths_of a es)"
  using assms by (auto simp: main_def Let_def split: option.splits)

text \<open>
  C1. In a run that completes, the candidate list is the walker's; each of the three
  counters is the number of candidates the loop classifies that way, every candidate
  falling under exactly one classification, so the counters add up to the length of the
  list; and a candidate for which a file operation of the loader raises is among those
  counted as binary or unreadable.
\<close>

theorem counters_partition_candidates:
  assumes "main fs a = Inr r"
  shows "Some (candidates r) = map_option (collected_paths_of a) (listing fs)
    \<and> included_count (summary r) + skipped_for_size (summary r) + skipped_as_binary (summary r)
        = length (candidates r)
    \<and> included_count (summary r)
        = length (filter (\<lambda>p. outcome_of fs (arg_max_kb a * 1024) p = Included) (candidates r))
    \<and> skipped_for_size (summary r)
        = length (filter (\<lambda>p. outcome_of fs (arg_max_kb a * 1024) p = SkippedTooLarge)
            (candidates r))
    \<and> skipped_as_binary (summary r)
        = length (filter (\<lambda>p. outcome_of fs (arg_max_kb a * 1024) p = SkippedBinaryOrUnreadable)
            (candidates r))
    \<and> (\<forall>p. (\<exists>op \<in> set (snd (read_text_safely fs p (arg_max_kb a * 1024))). raises fs op)
          \<longrightarrow> outcome_of fs (arg_max_kb a * 1024) p = SkippedBinaryOrUnreadable)"
proof -
  let ?m = "arg_max_kb a * 1024"
  from assms obtain es where es: "listing fs = Some es"
    and c: "candidates r = collected_paths_of a es"
    and s: "summary r = collate fs a (collected_paths_of a es)"
    by (rule main_Inr)
  let ?ps = "collected_paths_of a es"
  have counts:
    "included_count (summary r) = length (filter (\<lambda>p. outcome_of fs ?m p = Included) ?ps)"
    "skipped_for_size (summary r)
       = length (filter (\<lambda>p. outcome_of fs ?m p = SkippedTooLarge) ?ps)"
    "skipped_as_binary (summary r)
       = length (filter (\<lambda>p. outcome_of fs ?m p = SkippedBinaryOrUnreadable) ?ps)"
    unfolding s collate_def by (simp_all add: process_files_counts)
  have total: "included_count (summary r) + skipped_for_size (summary r)
      + skipped_as_binary (summary r) = length ?ps"
    unfolding counts by (rule outcome_partition)
  have err: "\<forall>p. (\<exists>op \<in> set (snd (read_text_safely fs p ?m)). raises fs op)
          \<longrightarrow> outcome_of fs ?m p = SkippedBinaryOrUnreadable"
    by (blast intro: outcome_of_raises)
  from es c counts total err show ?thesis by simp
qed

lemma sample_run: "\<exists>r. main sample_fs sample_args = Inr r"
  by (simp add: main_def sample_fs_def Let_def)




lemmas outcome_eval = outcome_of_def read_text_safely_def sample_fs_def sample_args_def
  is_probably_binary_def read_sample_def sample_verdict_def control_bytes_def
  is_control_byte_def density_exceeds_def


theorem counters_partition_candidates_witness:
  "\<exists>r. main sample_fs sample_args = Inr r
     \<and> candidates r = [[''A.txt''], [''a.TXT''], [''b.txt''], [''big.json''], [''blob.py''],
                       [''flaky.c''], [''gone.md''], [''locked.rs'']]
     \<and> included_count (summary r) = 3 \<and> skipped_for_size (summary r) = 1
     \<and> skipped_as_binary (summary r) = 4
     \<and> included_count (summary r) + skipped_for_size (summary r) + skipped_as_binary (summary r)
         = length (candidates r)
     \<and> raises sample_fs (Stat [''gone.md''])
     \<and> outcome_of sample_fs (arg_max_kb sample_args * 1024) [''gone.md'']
         = SkippedBinaryOrUnreadable"
proof -
  let ?m = "arg_max_kb sample_args * 1024"
  from sample_run obtain r where r: "main sample_fs sample_args = Inr r" ..
  note C = counters_partition_candidates [OF r]
  have l: "listing sample_fs = Some sample_entries" by (simp add: sample_fs_def)
  have cs: "collected_paths_of sample_args sample_entries
      = [[''A.txt''], [''a.TXT''], [''b.txt''], [''big.json''], [''blob.py''],
         [''flaky.c''], [''gone.md''], [''locked.rs'']]"
    by code_simp
  from C have "Some (candidates r) = map_option (collected_paths_of sample_args) (listing sample_fs)"
    by (rule conjunct1)
  with l cs have c: "candidates r = [[''A.txt''], [''a.TXT''], [''b.txt''], [''big.json''],
      [''blob.py''], [''flaky.c''], [''gone.md''], [''locked.rs'']]"
    by simp
  have o: "outcome_of sample_fs ?m [''A.txt''] = Included"
    "outcome_of sample_fs ?m [''a.TXT''] = Included"
    "outcome_of sample_fs ?m [''b.txt''] = Included"
    "outcome_of sample_fs ?m [''big.json''] = SkippedTooLarge"
    "outcome_of sample_fs ?m [''blob.py''] = SkippedBinaryOrUnreadable"
    "outcome_of sample_fs ?m [''flaky.c''] = SkippedBinaryOrUnreadable"
    "outcome_of sample_fs ?m [''gone.md''] = SkippedBinaryOrUnreadable"
    "outcome_of sample_fs ?m [''locked.rs''] = SkippedBinaryOrUnreadable"
    by (simp_all add: outcome_eval)
  have g: "raises sample_fs (Stat [''gone.md''])" by (simp add: sample_fs_def)
  from C have "included_count (summary r)
      = length (filter (\<lambda>p. outcome_of sample_fs ?m p = Included) (candidates r))"
    by blast
  then have i: "included_count (summary r) = 3" unfolding c by (simp add: o)
  from C have "skipped_for_size (summary r)
      = length (filter (\<lambda>p. outcome_of sample_fs ?m p = SkippedTooLarge) (candidates r))"
    by blast
  then have z: "skipped_for_size (summary r) = 1" unfolding c by (simp add: o)
  from C have "skipped_as_binary (summary r)
      = length (filter (\<lambda>p. outcome_of sample_fs ?m p = SkippedBinaryOrUnreadable)
          (candidates r))"
    by blast
  then have b: "skipped_as_binary (summary r) = 4" unfolding c by (simp add: o)
  from C have t: "included_count (summary r) + skipped_for_size (summary r)
      + skipped_as_binary (summary r) = length (candidates r)" by blast
  from r c i z b t g o(7) show ?thesis by blast
qed

text \<open>
  C6. A candidate whose size is above the limit is given up after the \<open>stat\<close>: the
  loader returns no content and performs no other operation, so in the whole run the file
  is never opened and never read; the loop classifies it as too large, and
  \<open>skipped_for_size\<close> is the number of candidates so classified.
\<close>

theorem oversize_skipped_unread:
  assumes "main fs a = Inr r" and "p \<in> set (candidates r)"
    and "st_size fs p = Some sz" and "int sz > arg_max_kb a * 1024"
  shows "read_text_safely fs p (arg_max_kb a * 1024) = (None, [Stat p])
    \<and> OpenBinary p \<notin> set (operations (summary r))
    \<and> ReadText p \<notin> set (operations (summary r))
    \<and> outcome_of fs (arg_max_kb a * 1024) p = SkippedTooLarge
    \<and> skipped_for_size (summary r)
        = length (filter (\<lambda>q. outcome_of fs (arg_max_kb a * 1024) q = SkippedTooLarge)
            (candidates r))
    \<and> 0 < skipped_for_size (summary r)"
proof -
  let ?m = "arg_max_kb a * 1024"
  from assms(1) obtain es where es: "listing fs = Some es"
    and c: "candidates r = collected_paths_of a es"
    and s: "summary r = collate fs a (collected_paths_of a es)"
    by (rule main_Inr)
  let ?ps = "collected_paths_of a es"
  from assms(3,4) have load: "read_text_safely fs p ?m = (None, [Stat p])"
    by (rule read_text_safely_too_large)
  with assms(3,4) have out: "outcome_of fs ?m p = SkippedTooLarge"
    by (simp add: outcome_of_def)
  have no: "op \<notin> set (operations (summary r))" if "op = OpenBinary p \<or> op = ReadText p" for op
  proof
    assume "op \<in> set (operations (summary r))"
    then have "op \<in> set (operations (process_files fs ?m
        \<lparr>lines = header_lines a ?ps @ toc_lines fs ?ps @ [newline @ ''---'' @ newline],
         included_count = 0, skipped_for_size = 0, skipped_as_binary = 0,
         operations = map Stat ?ps\<rparr> ?ps))"
      by (simp add: s collate_def)
    from process_files_ops [OF this] that
    obtain q where q: "q \<in> set ?ps" "op \<in> set (snd (read_text_safely fs q ?m))"
      by auto
    from read_text_safely_ops [OF q(2)] that have "q = p" by auto
    with q(2) load that show False by auto
  qed
  have cnt: "skipped_for_size (summary r)
      = length (filter (\<lambda>q. outcome_of fs ?m q = SkippedTooLarge) ?ps)"
    unfolding s collate_def by (simp add: process_files_counts)
  from assms(2) c out have "p \<in> set (filter (\<lambda>q. outcome_of fs ?m q = SkippedTooLarge) ?ps)"
    by simp
  then have "0 < length (filter (\<lambda>q. outcome_of fs ?m q = SkippedTooLarge) ?ps)"
    by (rule length_pos_if_in_set)
  with load no out cnt c show ?thesis by simp
qed

theorem oversize_skipped_unread_witness:
  "\<exists>r. main sample_fs sample_args = Inr r
     \<and> [''big.json''] \<in> set (candidates r)
     \<and> st_size sample_fs [''big.json''] = Some 614400
     \<and> int 614400 > arg_max_kb sample_args * 1024
     \<and> read_text_safely sample_fs [''big.json''] (arg_max_kb sample_args * 1024)
         = (None, [Stat [''big.json'']])
     \<and> OpenBinary [''big.json''] \<notin> set (operations (summary r))
     \<and> ReadText [''big.json''] \<notin> set (operations (summary r))
     \<and> 0 < skipped_for_size (summary r)"
proof -
  from sample_run obtain r where r: "main sample_fs sample_args = Inr r" ..
  have l: "listing sample_fs = Some sample_entries" by (simp add: sample_fs_def)
  have cs: "collected_paths_of sample_args sample_entries
      = [[''A.txt''], [''a.TXT''], [''b.txt''], [''big.json''], [''blob.py''],
         [''flaky.c''], [''gone.md''], [''locked.rs'']]"
    by code_simp
  from r l cs have c: "[''big.json''] \<in> set (candidates r)"
    by (auto simp: main_def Let_def)
  have sz: "st_size sample_fs [''big.json''] = Some 614400" by (simp add: sample_fs_def)
  have big: "int 614400 > arg_max_kb sample_args * 1024" by (simp add: sample_args_def)
  from oversize_skipped_unread [OF r c sz big] r c sz big show ?thesis by blast
qed

section \<open>Order of the candidates\<close>

text \<open>
  C4. The list the walker returns is sorted by the lower-cased string form of the paths,
  and the sort is stable: it is a rearrangement of the candidates met during the traversal
  in which paths with the same lower-cased form keep their traversal order.
\<close>

theorem walk_project_sorted_stable:
  "sorted (map (\<lambda>p. lower (path_str r p)) (walk_project r es ex al ih))
   \<and> mset (walk_project r es ex al ih) = mset (traversal ex al ih es)
   \<and> (\<forall>k. filter (\<lambda>p. lower (path_str r p) = k) (walk_project r es ex al ih)
          = filter (\<lambda>p. lower (path_str r p) = k) (traversal ex al ih es))"
proof -
  have key: "sort_key_of r = (\<lambda>p. lower (path_str r p))"
    by (rule ext) (simp add: sort_key_of_def)
  show ?thesis
    unfolding walk_project_def key
    by (simp add: sort_key_stable)
qed

theorem walk_project_sorted_stable_witness:
  "walk_project ''/srv/app'' [File ''b.txt'', File ''A.txt'', File ''a.TXT'']
      DEFAULT_EXCLUDED_DIRS DEFAULT_ALLOWED_EXTENSIONS False
     = [[''A.txt''], [''a.TXT''], [''b.txt'']]
   \<and> walk_project ''/srv/app'' [File ''a.TXT'', File ''b.txt'', File ''A.txt'']
      DEFAULT_EXCLUDED_DIRS DEFAULT_ALLOWED_EXTENSIONS False
     = [[''a.TXT''], [''A.txt''], [''b.txt'']]
   \<and> sorted (map (\<lambda>p. lower (path_str ''/srv/app'' p)) [[''A.txt''], [''a.TXT''], [''b.txt'']])"
proof -
  have 1: "walk_project ''/srv/app'' [File ''b.txt'', File ''A.txt'', File ''a.TXT'']
      DEFAULT_EXCLUDED_DIRS DEFAULT_ALLOWED_EXTENSIONS False
     = [[''A.txt''], [''a.TXT''], [''b.txt'']]"
    by code_simp
  have 2: "walk_project ''/srv/app'' [File ''a.TXT'', File ''b.txt'', File ''A.txt'']
      DEFAULT_EXCLUDED_DIRS DEFAULT_ALLOWED_EXTENSIONS False
     = [[''a.TXT''], [''A.txt''], [''b.txt'']]"
    by code_simp
  from walk_project_sorted_stable [of "''/srv/app''"
      "[File ''b.txt'', File ''A.txt'', File ''a.TXT'']"
      DEFAULT_EXCLUDED_DIRS DEFAULT_ALLOWED_EXTENSIONS False]
  have "sorted (map (\<lambda>p. lower (path_str ''/srv/app'' p))
      (walk_project ''/srv/app'' [File ''b.txt'', File ''A.txt'', File ''a.TXT'']
        DEFAULT_EXCLUDED_DIRS DEFAULT_ALLOWED_EXTENSIONS False))"
    by (rule conjunct1)
  then have 3: "sorted (map (\<lambda>p. lower (path_str ''/srv/app'' p))
      [[''A.txt''], [''a.TXT''], [''b.txt'']])"
    by (simp only: 1)
  from 1 2 3 show ?thesis by (intro conjI)
qed

section \<open>Reproducible output\<close>











end
